theory Spec2Isabelle
  imports Main "HOL-Library.Sublist"
begin

section \<open>The "Copy page" button of the documentation site\<close>

text \<open>
  A shallow embedding of \<^verbatim>\<open>docs/js/copy-as-markdown.js\<close> in its notebook-aware version
  (the source file with \<^verbatim>\<open>notebookToMarkdown\<close>). A JavaScript string is a \<^typ>\<open>string\<close>;
  every string operation of the script works unit by unit and all its literals are ASCII.
  JavaScript's \<^verbatim>\<open>undefined\<close> and \<^verbatim>\<open>null\<close> results of DOM calls are \<^const>\<open>None\<close>.
\<close>

subsection \<open>String built-ins, as the script uses them\<close>

definition REPO_RAW_BASE :: string where
  "REPO_RAW_BASE = ''https://raw.githubusercontent.com/stanfordnlp/dspy/main/docs/docs/''"

text \<open>\<^verbatim>\<open>s.endsWith(suf)\<close>.\<close>

definition endsWith :: "string \<Rightarrow> string \<Rightarrow> bool" where
  "endsWith s suf \<longleftrightarrow> length suf \<le> length s \<and> drop (length s - length suf) s = suf"

text \<open>\<^verbatim>\<open>s.indexOf(m)\<close>: the index of the first occurrence; \<^const>\<open>None\<close> stands for -1.\<close>

fun indexOf :: "string \<Rightarrow> string \<Rightarrow> nat option" where
  "indexOf [] m = (if m = [] then Some 0 else None)"
| "indexOf (c # cs) m =
     (if take (length m) (c # cs) = m then Some 0 else map_option Suc (indexOf cs m))"

text \<open>\<^verbatim>\<open>s.substring(k)\<close> for a non-negative \<^verbatim>\<open>k\<close>.\<close>

definition substring :: "string \<Rightarrow> nat \<Rightarrow> string" where
  "substring s k = drop k s"

text \<open>
  \<^verbatim>\<open>s.replace(/suf$/, r)\<close> for a literal \<^verbatim>\<open>suf\<close> and a replacement without \<^verbatim>\<open>$\<close> patterns:
  without the \<^verbatim>\<open>m\<close> flag, \<^verbatim>\<open>$\<close> matches at the end of the input only.
  \<^verbatim>\<open>s.replace(/^pre/, r)\<close> likewise at the start.
\<close>

definition replace_at_end :: "string \<Rightarrow> string \<Rightarrow> string \<Rightarrow> string" where
  "replace_at_end s suf r = (if endsWith s suf then take (length s - length suf) s @ r else s)"

definition replace_at_start :: "string \<Rightarrow> string \<Rightarrow> string \<Rightarrow> string" where
  "replace_at_start s pre r = (if take (length pre) s = pre then r @ drop (length pre) s else s)"

text \<open>\<^verbatim>\<open>parts.join(sep)\<close> on an array of strings.\<close>

fun join_strings :: "string \<Rightarrow> string list \<Rightarrow> string" where
  "join_strings sep [] = []"
| "join_strings sep [x] = x"
| "join_strings sep (x # y # ys) = x @ sep @ join_strings sep (y # ys)"

subsection \<open>\<^verbatim>\<open>getMarkdownPath\<close>\<close>

text \<open>
  What the function reads of the page: the result of
  \<^verbatim>\<open>document.querySelector('a[title="Edit this page"]')\<close> (\<^const>\<open>None\<close> when no element
  matches, otherwise the element's \<^verbatim>\<open>href\<close> attribute, itself \<^const>\<open>None\<close> when the
  attribute is missing), and \<^verbatim>\<open>window.location.pathname\<close>.
\<close>

record document =
  editLink :: "string option option"
  pathname :: string

definition getMarkdownPath :: "document \<Rightarrow> string" where
  "getMarkdownPath doc =
     (let from_link =
        (case editLink doc of
           None \<Rightarrow> None
         | Some attr \<Rightarrow>
             (let href = (case attr of None \<Rightarrow> [] | Some h \<Rightarrow> h);
                  marker = ''docs/docs/''
              in case indexOf href marker of
                   None \<Rightarrow> None
                 | Some idx \<Rightarrow> Some (substring href (idx + length marker))))
      in case from_link of
           Some p \<Rightarrow> p
         | None \<Rightarrow>
             (let path = replace_at_end (pathname doc) ''/'' [] in
              if path = [] \<or> path = ''/'' then ''index.md''
              else
                (let path = replace_at_start path ''/'' [] in
                 if endsWith path ''.md'' then path else path @ ''.md'')))"

subsection \<open>Values of the JavaScript runtime\<close>

text \<open>
  The value \<^verbatim>\<open>JSON.parse\<close> returns: null, a boolean, a number, a string, an array or an
  object. Numbers stay abstract (the type \<open>'n\<close>). An object is an association list read
  with \<^const>\<open>map_of\<close>. A property read that yields \<^verbatim>\<open>undefined\<close> is \<^const>\<open>None\<close>.
\<close>

datatype 'n json =
    JNull
  | JBool bool
  | JNum 'n
  | JStr string
  | JArr "'n json list"
  | JObj "(string \<times> 'n json) list"

text \<open>The exceptions and promise rejections that can reach the final \<^verbatim>\<open>.catch\<close>.\<close>

datatype error =
    FetchFailed      \<comment> \<open>\<^verbatim>\<open>new Error("Could not fetch markdown source")\<close>\<close>
  | NetworkError     \<comment> \<open>\<^verbatim>\<open>fetch\<close> or \<^verbatim>\<open>res.text()\<close> rejected\<close>
  | SyntaxError      \<comment> \<open>thrown by \<^verbatim>\<open>JSON.parse\<close>\<close>
  | TypeError        \<comment> \<open>a property read of null or undefined, a call of a non-function\<close>
  | ClipboardDenied  \<comment> \<open>\<^verbatim>\<open>navigator.clipboard.writeText\<close> rejected\<close>

text \<open>
  The built-ins of the runtime that the script relies on and that are not modelled here,
  as parameters: \<^verbatim>\<open>JSON.parse\<close> (\<^const>\<open>None\<close> when it throws), the truth value and
  the string form of a number, and the comparison \<^verbatim>\<open>i < v\<close> of a loop counter with a
  parsed value.
\<close>

record 'n host =
  JSON_parse :: "string \<Rightarrow> 'n json option"
  num_truthy :: "'n \<Rightarrow> bool"
  num_toString :: "'n \<Rightarrow> string"
  index_lt :: "nat \<Rightarrow> 'n json \<Rightarrow> bool"

text \<open>\<^verbatim>\<open>ToBoolean\<close>.\<close>

fun truthy :: "'n host \<Rightarrow> 'n json option \<Rightarrow> bool" where
  "truthy h None = False"
| "truthy h (Some JNull) = False"
| "truthy h (Some (JBool b)) = b"
| "truthy h (Some (JNum n)) = num_truthy h n"
| "truthy h (Some (JStr s)) = (s \<noteq> [])"
| "truthy h (Some (JArr xs)) = True"
| "truthy h (Some (JObj kvs)) = True"

text \<open>
  \<^verbatim>\<open>v.name\<close> for the names \<^verbatim>\<open>cells\<close>, \<^verbatim>\<open>source\<close> and \<^verbatim>\<open>cell_type\<close>, which no
  prototype defines: a \<^verbatim>\<open>TypeError\<close> on null and undefined, the own property of an
  object, \<^verbatim>\<open>undefined\<close> on anything else.
\<close>

fun get_prop :: "'n json option \<Rightarrow> string \<Rightarrow> error + 'n json option" where
  "get_prop None name = Inl TypeError"
| "get_prop (Some JNull) name = Inl TypeError"
| "get_prop (Some (JObj kvs)) name = Inr (map_of kvs name)"
| "get_prop (Some v) name = Inr None"

text \<open>\<^verbatim>\<open>v || []\<close>.\<close>

definition or_empty_array :: "'n host \<Rightarrow> 'n json option \<Rightarrow> 'n json" where
  "or_empty_array h v =
     (case v of None \<Rightarrow> JArr [] | Some x \<Rightarrow> if truthy h (Some x) then x else JArr [])"

text \<open>
  \<^verbatim>\<open>Array.prototype.join\<close> on a parsed array: null contributes the empty string, an
  inner array its own \<^verbatim>\<open>join(",")\<close>, an object \<^verbatim>\<open>[object Object]\<close> unless an own
  \<^verbatim>\<open>toString\<close> property (never callable in parsed JSON) hides the inherited method.
\<close>

fun element_string :: "'n host \<Rightarrow> 'n json \<Rightarrow> error + string"
  and array_join :: "'n host \<Rightarrow> string \<Rightarrow> 'n json list \<Rightarrow> error + string" where
  "element_string h JNull = Inr []"
| "element_string h (JBool b) = Inr (if b then ''true'' else ''false'')"
| "element_string h (JNum n) = Inr (num_toString h n)"
| "element_string h (JStr s) = Inr s"
| "element_string h (JArr xs) = array_join h '','' xs"
| "element_string h (JObj kvs) =
     (if map_of kvs ''toString'' \<noteq> None then Inl TypeError else Inr ''[object Object]'')"
| "array_join h sep [] = Inr []"
| "array_join h sep (x # xs) =
     (case element_string h x of
        Inl e \<Rightarrow> Inl e
      | Inr s \<Rightarrow>
          (if xs = [] then Inr s
           else case array_join h sep xs of Inl e \<Rightarrow> Inl e | Inr r \<Rightarrow> Inr (s @ sep @ r)))"

text \<open>\<^verbatim>\<open>w.join("")\<close>: only an array has a \<^verbatim>\<open>join\<close> method.\<close>

fun call_join :: "'n host \<Rightarrow> 'n json \<Rightarrow> error + string" where
  "call_join h (JArr xs) = array_join h [] xs"
| "call_join h v = Inl TypeError"

subsection \<open>\<^verbatim>\<open>notebookToMarkdown\<close>\<close>

text \<open>One pass of the loop body for the value \<^verbatim>\<open>cells[i]\<close>: the strings it pushes.\<close>

definition cell_parts :: "'n host \<Rightarrow> 'n json option \<Rightarrow> error + string list" where
  "cell_parts h cell =
     (case get_prop cell ''source'' of
        Inl e \<Rightarrow> Inl e
      | Inr src \<Rightarrow>
          (case call_join h (or_empty_array h src) of
             Inl e \<Rightarrow> Inl e
           | Inr source \<Rightarrow>
               (case get_prop cell ''cell_type'' of
                  Inl e \<Rightarrow> Inl e
                | Inr ct \<Rightarrow>
                    if ct = Some (JStr ''markdown'') then Inr [source]
                    else if ct = Some (JStr ''code'') then
                      Inr [''```python\<newline>'' @ source @ ''\<newline>```'']
                    else Inr [])))"

text \<open>The loop over an array.\<close>

fun cells_loop :: "'n host \<Rightarrow> 'n json list \<Rightarrow> string list \<Rightarrow> error + string list" where
  "cells_loop h [] parts = Inr parts"
| "cells_loop h (cell # rest) parts =
     (case cell_parts h (Some cell) of
        Inl e \<Rightarrow> Inl e
      | Inr ps \<Rightarrow> cells_loop h rest (parts @ ps))"

text \<open>\<^verbatim>\<open>String(i)\<close> for a loop counter: its decimal digits.\<close>

fun show_nat :: "nat \<Rightarrow> string" where
  "show_nat n =
     (if n < 10 then [char_of (48 + n)]
      else show_nat (n div 10) @ [char_of (48 + n mod 10)])"

declare show_nat.simps [simp del]


text \<open>
  The loop when \<^verbatim>\<open>cells\<close> is an object: \<^verbatim>\<open>cells.length\<close> and \<^verbatim>\<open>cells[i]\<close> are its
  properties \<^verbatim>\<open>length\<close> and \<^verbatim>\<open>String(i)\<close>; a missing \<^verbatim>\<open>length\<close> makes the
  comparison false, a missing \<^verbatim>\<open>cells[i]\<close> makes \<^verbatim>\<open>cell.source\<close> throw. Each pass
  that does not throw has found the key \<^verbatim>\<open>String(i)\<close>, and there are finitely many
  keys: the loop ends.
\<close>

lemma read_show_nat:
  "foldl (\<lambda>a c. 10 * a + (of_char c - 48)) (0::nat) (show_nat n) = n"
proof (induction n rule: show_nat.induct)
  case (1 n)
  show ?case
  proof (cases "n < 10")
    case True
    then show ?thesis by (subst show_nat.simps) simp
  next
    case False
    have "n mod 10 < 10" by simp
    with False 1 show ?thesis
      by (subst show_nat.simps) simp
  qed
qed

lemma inj_show_nat: "inj show_nat"
  by (rule inj_on_inverseI [where g = "foldl (\<lambda>a c. 10 * a + (of_char c - 48)) (0::nat)"])
     (rule read_show_nat)

lemma cell_parts_undefined: "cell_parts h None = Inl TypeError"
  by (simp add: cell_parts_def)

lemma finite_indices: "finite {j. i \<le> j \<and> show_nat j \<in> fst ` set kvs}"
proof -
  have "finite (show_nat -` (fst ` set kvs))"
    by (rule finite_vimageI) (simp_all add: inj_show_nat)
  then show ?thesis
    by (rule rev_finite_subset) auto
qed

function arraylike_loop ::
  "'n host \<Rightarrow> (string \<times> 'n json) list \<Rightarrow> nat \<Rightarrow> string list \<Rightarrow> error + string list" where
  "arraylike_loop h kvs i parts =
     (if (case map_of kvs ''length'' of None \<Rightarrow> False | Some len \<Rightarrow> index_lt h i len) then
        (case cell_parts h (map_of kvs (show_nat i)) of
           Inl e \<Rightarrow> Inl e
         | Inr ps \<Rightarrow> arraylike_loop h kvs (Suc i) (parts @ ps))
      else Inr parts)"
  by pat_completeness auto
termination
proof (relation "measure (\<lambda>(h, kvs, i, parts). card {j. i \<le> j \<and> show_nat j \<in> fst ` set kvs})")
  show "wf (measure (\<lambda>(h::'n host, kvs::(string \<times> 'n json) list, i::nat, parts::string list).
     card {j. i \<le> j \<and> show_nat j \<in> fst ` set kvs}))"
    by simp
next
  fix h :: "'n host" and kvs :: "(string \<times> 'n json) list" and i :: nat
    and parts ps :: "string list"
  assume "cell_parts h (map_of kvs (show_nat i)) = Inr ps"
  then have "map_of kvs (show_nat i) \<noteq> None"
    by (cases "map_of kvs (show_nat i)") (simp_all add: cell_parts_undefined)
  then have mem: "show_nat i \<in> fst ` set kvs"
    by (simp add: map_of_eq_None_iff)
  have "i \<in> {j. i \<le> j \<and> show_nat j \<in> fst ` set kvs}"
    and "i \<notin> {j. Suc i \<le> j \<and> show_nat j \<in> fst ` set kvs}"
    using mem by simp_all
  moreover have "{j. Suc i \<le> j \<and> show_nat j \<in> fst ` set kvs}
      \<subseteq> {j. i \<le> j \<and> show_nat j \<in> fst ` set kvs}"
    by auto
  ultimately have "{j. Suc i \<le> j \<and> show_nat j \<in> fst ` set kvs}
      \<subset> {j. i \<le> j \<and> show_nat j \<in> fst ` set kvs}"
    by blast
  then have "card {j. Suc i \<le> j \<and> show_nat j \<in> fst ` set kvs}
      < card {j. i \<le> j \<and> show_nat j \<in> fst ` set kvs}"
    by (rule psubset_card_mono [OF finite_indices])
  then show "((h, kvs, Suc i, parts @ ps), (h, kvs, i, parts))
      \<in> measure (\<lambda>(h, kvs, i, parts). card {j. i \<le> j \<and> show_nat j \<in> fst ` set kvs})"
    by simp
qed

declare arraylike_loop.simps [simp del]

text \<open>
  The body of \<^verbatim>\<open>notebookToMarkdown\<close> after \<^verbatim>\<open>JSON.parse\<close>: the array \<^verbatim>\<open>parts\<close>.
  \<^verbatim>\<open>cells\<close> is \<^verbatim>\<open>nb.cells || []\<close>, so it is truthy or the empty array. An array is
  walked element by element, a string unit by unit, an object by its index properties;
  a boolean or a number has no \<^verbatim>\<open>length\<close>, and \<^verbatim>\<open>0 < undefined\<close> is false.
\<close>

definition notebook_parts :: "'n host \<Rightarrow> 'n json \<Rightarrow> error + string list" where
  "notebook_parts h nb =
     (case get_prop (Some nb) ''cells'' of
        Inl e \<Rightarrow> Inl e
      | Inr c \<Rightarrow>
          (case or_empty_array h c of
             JArr xs \<Rightarrow> cells_loop h xs []
           | JStr s \<Rightarrow> cells_loop h (map (\<lambda>u. JStr [u]) s) []
           | JObj kvs \<Rightarrow> arraylike_loop h kvs 0 []
           | JBool b \<Rightarrow> Inr []
           | JNum n \<Rightarrow> Inr []
           | JNull \<Rightarrow> Inl TypeError))"

definition notebookToMarkdown :: "'n host \<Rightarrow> string \<Rightarrow> error + string" where
  "notebookToMarkdown h json =
     (case JSON_parse h json of
        None \<Rightarrow> Inl SyntaxError
      | Some nb \<Rightarrow>
          (case notebook_parts h nb of
             Inl e \<Rightarrow> Inl e
           | Inr parts \<Rightarrow> Inr (join_strings ''\<newline>\<newline>'' parts)))"

subsection \<open>\<^verbatim>\<open>copyMarkdown\<close>\<close>

text \<open>
  A response of \<^verbatim>\<open>fetch\<close>: its \<^verbatim>\<open>ok\<close> flag and what \<^verbatim>\<open>res.text()\<close> resolves to
  (\<^const>\<open>None\<close> when that promise rejects).
\<close>

record response =
  ok :: bool
  body_text :: "string option"

text \<open>
  The browser of one click: the runtime, the network (\<open>fetch n url\<close> is the outcome of
  the request number \<open>n\<close> of this click, counted from 0, \<^const>\<open>None\<close> when the promise
  rejects) and \<^verbatim>\<open>navigator.clipboard\<close>: \<^const>\<open>None\<close> when the property is undefined
  (a page outside a secure context), so that reading its \<^verbatim>\<open>writeText\<close> throws a
  \<^verbatim>\<open>TypeError\<close> before anything is written; otherwise its \<^verbatim>\<open>writeText\<close>, false when
  the promise rejects.
\<close>

record 'n browser =
  runtime :: "'n host"
  fetch :: "nat \<Rightarrow> string \<Rightarrow> response option"
  clipboard :: "(string \<Rightarrow> bool) option"

text \<open>
  The state classes of the button. \<^verbatim>\<open>showFeedback\<close> also starts a timer that puts the
  label back after 2000 ms; the model stops before it.
\<close>

datatype button = Idle | Loading | Success | Failed

definition showFeedback :: "bool \<Rightarrow> button" where
  "showFeedback success = (if success then Success else Failed)"

text \<open>The alternate path of the retry (the variable \<^verbatim>\<open>altPath\<close>).\<close>

definition altPath :: "string \<Rightarrow> string" where
  "altPath mdPath =
     (let isNotebook = endsWith mdPath ''.ipynb'' in
      if isNotebook then replace_at_end mdPath ''.ipynb'' ''/index.ipynb''
      else replace_at_end mdPath ''.md'' ''/index.md'')"

text \<open>
  The first \<^verbatim>\<open>.then\<close>: the URLs requested, and the text with the path it came from or
  the error thrown.
\<close>

definition fetch_source :: "'n browser \<Rightarrow> string \<Rightarrow> string list \<times> (error + string \<times> string)" where
  "fetch_source b mdPath =
     (let url = REPO_RAW_BASE @ mdPath in
      case fetch b 0 url of
        None \<Rightarrow> ([url], Inl NetworkError)
      | Some res \<Rightarrow>
          if \<not> ok res then
            (let alt = altPath mdPath; url2 = REPO_RAW_BASE @ alt in
             case fetch b 1 url2 of
               None \<Rightarrow> ([url, url2], Inl NetworkError)
             | Some res2 \<Rightarrow>
                 if \<not> ok res2 then ([url, url2], Inl FetchFailed)
                 else
                   (case body_text res2 of
                      None \<Rightarrow> ([url, url2], Inl NetworkError)
                    | Some t \<Rightarrow> ([url, url2], Inr (t, alt))))
          else
            (case body_text res of
               None \<Rightarrow> ([url], Inl NetworkError)
             | Some t \<Rightarrow> ([url], Inr (t, mdPath))))"

text \<open>The conversion step of the second \<^verbatim>\<open>.then\<close>.\<close>

definition normalize :: "'n host \<Rightarrow> string \<Rightarrow> string \<Rightarrow> error + string" where
  "normalize h mdPath raw =
     (if endsWith mdPath ''.ipynb'' then notebookToMarkdown h raw else Inr raw)"

text \<open>
  What one click does: the URLs fetched, the arguments of the calls of
  \<^verbatim>\<open>notebookToMarkdown\<close> and of \<^verbatim>\<open>writeText\<close>, the error that reached \<^verbatim>\<open>.catch\<close>, and
  the state \<^verbatim>\<open>showFeedback\<close> leaves the button in.
\<close>

record run =
  requests :: "string list"
  notebook_calls :: "string list"
  clipboard_calls :: "string list"
  caught :: "error option"
  button :: button

definition copyMarkdown :: "'n browser \<Rightarrow> document \<Rightarrow> run" where
  "copyMarkdown b doc =
     (let mdPath = getMarkdownPath doc;
          (reqs, fetched) = fetch_source b mdPath
      in case fetched of
           Inl e \<Rightarrow>
             \<lparr>requests = reqs, notebook_calls = [], clipboard_calls = [],
              caught = Some e, button = showFeedback False\<rparr>
         | Inr (raw, mdPath) \<Rightarrow>
             (let calls = (if endsWith mdPath ''.ipynb'' then [raw] else []) in
              case normalize (runtime b) mdPath raw of
                Inl e \<Rightarrow>
                  \<lparr>requests = reqs, notebook_calls = calls, clipboard_calls = [],
                   caught = Some e, button = showFeedback False\<rparr>
              | Inr md \<Rightarrow>
                  (case clipboard b of
                     None \<Rightarrow>
                       \<lparr>requests = reqs, notebook_calls = calls, clipboard_calls = [],
                        caught = Some TypeError, button = showFeedback False\<rparr>
                   | Some writeText \<Rightarrow>
                       if writeText md then
                         \<lparr>requests = reqs, notebook_calls = calls, clipboard_calls = [md],
                          caught = None, button = showFeedback True\<rparr>
                       else
                         \<lparr>requests = reqs, notebook_calls = calls, clipboard_calls = [md],
                          caught = Some ClipboardDenied, button = showFeedback False\<rparr>)))"

subsection \<open>The notebook of the specification\<close>

text \<open>
  The specification's notebook: an ordered sequence of cells, each a kind and a text.
  Markdown text is emitted as it is, code text inside a fence labelled \<^verbatim>\<open>python\<close>, any
  other kind is skipped, and the fragments are joined with a blank line between them.
\<close>

datatype kind = Markdown | Code | Other

fun spec_fragments :: "(kind \<times> string) list \<Rightarrow> string list" where
  "spec_fragments [] = []"
| "spec_fragments ((Markdown, t) # cs) = t # spec_fragments cs"
| "spec_fragments ((Code, t) # cs) =
     (''```python'' @ [CHR 0x0A] @ t @ [CHR 0x0A] @ ''```'') # spec_fragments cs"
| "spec_fragments ((Other, t) # cs) = spec_fragments cs"

definition spec_render :: "(kind \<times> string) list \<Rightarrow> string" where
  "spec_render cs =
     (case spec_fragments cs of
        [] \<Rightarrow> []
      | f # fs \<Rightarrow> f @ concat (map (\<lambda>g. [CHR 0x0A, CHR 0x0A] @ g) fs))"

text \<open>
  How a parsed cell is read as a cell of the specification: an object whose
  \<^verbatim>\<open>source\<close> is an array of strings (the source lines); its kind is its \<^verbatim>\<open>cell_type\<close>.
\<close>

fun string_lines :: "'n json list \<Rightarrow> string list option" where
  "string_lines [] = Some []"
| "string_lines (JStr s # xs) = map_option ((#) s) (string_lines xs)"
| "string_lines (x # xs) = None"

definition kind_of :: "'n json option \<Rightarrow> kind" where
  "kind_of ct =
     (if ct = Some (JStr ''markdown'') then Markdown
      else if ct = Some (JStr ''code'') then Code else Other)"

fun cell_view :: "'n json \<Rightarrow> (kind \<times> string) option" where
  "cell_view (JObj kvs) =
     (case map_of kvs ''source'' of
        Some (JArr ls) \<Rightarrow>
          map_option (\<lambda>l. (kind_of (map_of kvs ''cell_type''), concat l)) (string_lines ls)
      | _ \<Rightarrow> None)"
| "cell_view v = None"

text \<open>The same reading, with a missing \<^verbatim>\<open>source\<close> read as the empty text.\<close>

fun cell_view_optional :: "'n json \<Rightarrow> (kind \<times> string) option" where
  "cell_view_optional (JObj kvs) =
     (case map_of kvs ''source'' of
        None \<Rightarrow> Some (kind_of (map_of kvs ''cell_type''), [])
      | Some (JArr ls) \<Rightarrow>
          map_option (\<lambda>l. (kind_of (map_of kvs ''cell_type''), concat l)) (string_lines ls)
      | _ \<Rightarrow> None)"
| "cell_view_optional v = None"

section \<open>Facts about the built-ins\<close>

lemma endsWith_iff: "endsWith s suf \<longleftrightarrow> (\<exists>stem. s = stem @ suf)"
proof
  assume "endsWith s suf"
  then have "s = take (length s - length suf) s @ suf"
    by (metis append_take_drop_id endsWith_def)
  then show "\<exists>stem. s = stem @ suf" ..
next
  assume "\<exists>stem. s = stem @ suf"
  then show "endsWith s suf" by (auto simp: endsWith_def)
qed

lemma replace_at_end_append [simp]: "replace_at_end (stem @ suf) suf r = stem @ r"
  by (simp add: replace_at_end_def endsWith_def)

lemma replace_at_end_other: "\<not> endsWith s suf \<Longrightarrow> replace_at_end s suf r = s"
  by (simp add: replace_at_end_def)

lemma endsWith_slash: "endsWith s ''/'' \<longleftrightarrow> s \<noteq> [] \<and> last s = CHR ''/''"
  by (cases s rule: rev_cases) (auto simp: endsWith_def)

lemma indexOf_Some:
  "indexOf s m = Some i \<Longrightarrow>
     \<exists>pre rest. s = pre @ m @ rest \<and> length pre = i
       \<and> (\<forall>pre' rest'. s = pre' @ m @ rest' \<longrightarrow> i \<le> length pre')"
proof (induction s arbitrary: i)
  case Nil
  then show ?case by (auto split: if_splits)
next
  case (Cons c cs)
  show ?case
  proof (cases "take (length m) (c # cs) = m")
    case True
    with Cons.prems have "i = 0" by simp
    moreover have "c # cs = [] @ m @ drop (length m) (c # cs)"
      using append_take_drop_id [of "length m" "c # cs"] True by simp
    ultimately show ?thesis by blast
  next
    case False
    with Cons.prems obtain j where j: "indexOf cs m = Some j" "i = Suc j"
      by auto
    from Cons.IH [OF j(1)] obtain pre rest where
      rest: "cs = pre @ m @ rest" "length pre = j" and
      least: "\<forall>pre' rest'. cs = pre' @ m @ rest' \<longrightarrow> j \<le> length pre'"
      by blast
    have "c # cs = (c # pre) @ m @ rest" "length (c # pre) = i"
      using rest j(2) by simp_all
    moreover have "i \<le> length p" if "c # cs = p @ m @ r" for p r
    proof (cases p)
      case Nil
      with that have "take (length m) (c # cs) = m" by simp
      with False show ?thesis by simp
    next
      case (Cons a p')
      with that have "cs = p' @ m @ r" by simp
      with least have "j \<le> length p'" by blast
      with Cons j(2) show ?thesis by simp
    qed
    ultimately show ?thesis by blast
  qed
qed

lemma indexOf_None: "indexOf s m = None \<Longrightarrow> s \<noteq> pre @ m @ rest"
proof (induction s arbitrary: pre)
  case Nil
  then show ?case by (auto split: if_splits)
next
  case (Cons c cs)
  from Cons.prems have nt: "take (length m) (c # cs) \<noteq> m" and "indexOf cs m = None"
    by (auto split: if_splits)
  show ?case
  proof (cases pre)
    case Nil
    with nt show ?thesis by auto
  next
    case (Cons a pre')
    with Cons.IH [OF \<open>indexOf cs m = None\<close>, of pre'] show ?thesis by simp
  qed
qed

lemma fetch_source_first: "\<exists>rs. fst (fetch_source b p) = (REPO_RAW_BASE @ p) # rs"
  by (simp add: fetch_source_def Let_def split: option.splits)

lemma requests_copyMarkdown:
  "requests (copyMarkdown b doc) = fst (fetch_source b (getMarkdownPath doc))"
  by (simp add: copyMarkdown_def Let_def split: prod.splits sum.splits option.splits)

lemma altPath_ipynb: "altPath (stem @ ''.ipynb'') = stem @ ''/index.ipynb''"
  by (simp add: altPath_def endsWith_iff)

lemma altPath_md: "altPath (stem @ ''.md'') = stem @ ''/index.md''"
proof -
  have "\<not> endsWith (stem @ ''.md'') ''.ipynb''"
    by (auto simp: endsWith_iff append_eq_append_conv2 Cons_eq_append_conv append_eq_Cons_conv)
  then show ?thesis by (simp add: altPath_def)
qed

lemma altPath_other:
  "\<not> endsWith p ''.md'' \<Longrightarrow> \<not> endsWith p ''.ipynb'' \<Longrightarrow> altPath p = p"
  by (simp add: altPath_def replace_at_end_def)

lemma fetch_source_retry:
  assumes "fetch b 0 (REPO_RAW_BASE @ p) = Some res" and "\<not> ok res"
  shows "fst (fetch_source b p) = [REPO_RAW_BASE @ p, REPO_RAW_BASE @ altPath p]"
  using assms by (simp add: fetch_source_def Let_def split: option.splits)

section \<open>\<^verbatim>\<open>getMarkdownPath\<close>\<close>

text \<open>
  Claim C4. When the page has an edit link whose target contains the marker
  \<^verbatim>\<open>docs/docs/\<close>, \<^verbatim>\<open>getMarkdownPath\<close> returns what follows the marker (its first
  occurrence), and the first URL that \<^verbatim>\<open>copyMarkdown\<close> requests is the fixed base
  followed by exactly that path.
\<close>

theorem edit_link_path_after_marker:
  assumes "editLink doc = Some (Some href)"
    and "\<exists>pre rest. href = pre @ ''docs/docs/'' @ rest"
  shows "\<exists>pre rest. href = pre @ ''docs/docs/'' @ rest
      \<and> (\<forall>pre' rest'. href = pre' @ ''docs/docs/'' @ rest' \<longrightarrow> length pre \<le> length pre')
      \<and> getMarkdownPath doc = rest
      \<and> (\<exists>rs. requests (copyMarkdown b doc) = (REPO_RAW_BASE @ rest) # rs)"
proof -
  from assms(2) indexOf_None obtain i where i: "indexOf href ''docs/docs/'' = Some i"
    by (cases "indexOf href ''docs/docs/''") blast+
  from indexOf_Some [OF i] obtain pre rest where
    rest: "href = pre @ ''docs/docs/'' @ rest" "length pre = i" and
    least: "\<forall>pre' r. href = pre' @ ''docs/docs/'' @ r \<longrightarrow> i \<le> length pre'"
    by blast
  from rest have "substring href (i + length ''docs/docs/'') = rest"
    by (simp add: substring_def)
  with assms(1) i have path: "getMarkdownPath doc = rest"
    by (simp add: getMarkdownPath_def)
  from fetch_source_first obtain rs where "fst (fetch_source b rest) = (REPO_RAW_BASE @ rest) # rs"
    by blast
  with path have "requests (copyMarkdown b doc) = (REPO_RAW_BASE @ rest) # rs"
    by (simp add: requests_copyMarkdown)
  with rest least path show ?thesis by blast
qed

theorem edit_link_path_after_marker_witness:
  "getMarkdownPath
     \<lparr>editLink = Some (Some ''https://github.com/stanfordnlp/dspy/blob/main/docs/docs/api/Foo.md''),
      pathname = ''/api/Foo/''\<rparr> = ''api/Foo.md''
   \<and> (\<exists>rs. requests (copyMarkdown
        \<lparr>runtime = \<lparr>JSON_parse = (\<lambda>s. None), num_truthy = (\<lambda>n::nat. n \<noteq> 0),
         num_toString = show_nat, index_lt = (\<lambda>i v. False)\<rparr>,
         fetch = (\<lambda>n url. Some \<lparr>ok = True, body_text = Some ''# Foo''\<rparr>),
         clipboard = Some (\<lambda>s. True)\<rparr>
        \<lparr>editLink = Some (Some ''https://github.com/stanfordnlp/dspy/blob/main/docs/docs/api/Foo.md''),
         pathname = ''/api/Foo/''\<rparr>)
      = ''https://raw.githubusercontent.com/stanfordnlp/dspy/main/docs/docs/api/Foo.md'' # rs)"
proof -
  let ?doc = "\<lparr>editLink = Some (Some ''https://github.com/stanfordnlp/dspy/blob/main/docs/docs/api/Foo.md''),
      pathname = ''/api/Foo/''\<rparr>"
  have path: "getMarkdownPath ?doc = ''api/Foo.md''"
    by (simp add: getMarkdownPath_def substring_def)
  have "\<exists>pre rest. ''https://github.com/stanfordnlp/dspy/blob/main/docs/docs/api/Foo.md''
      = pre @ ''docs/docs/'' @ rest"
    by (rule exI [of _ "''https://github.com/stanfordnlp/dspy/blob/main/''"],
        rule exI [of _ "''api/Foo.md''"]) simp
  from edit_link_path_after_marker [of ?doc _ _, OF _ this] path show ?thesis
    by (auto simp: REPO_RAW_BASE_def)
qed

text \<open>
  Claim C5, as amended. With no edit link, a pathname that ends in \<^verbatim>\<open>.md\<close> is returned
  with its leading slash removed when it has one, and as it is otherwise; no extension is
  appended. As stated (the path is returned unchanged) the claim fails on every pathname
  that begins with a slash.
\<close>

theorem md_pathname_loses_only_leading_slash:
  assumes "editLink doc = None" and "endsWith (pathname doc) ''.md''"
  shows "(\<forall>q. pathname doc = CHR ''/'' # q \<longrightarrow> getMarkdownPath doc = q)
    \<and> ((\<forall>q. pathname doc \<noteq> CHR ''/'' # q) \<longrightarrow> getMarkdownPath doc = pathname doc)"
proof -
  from assms(2) obtain stem where p: "pathname doc = stem @ ''.md''"
    by (auto simp: endsWith_iff)
  then have nonroot: "replace_at_end (pathname doc) ''/'' [] = pathname doc"
    "pathname doc \<noteq> []" "pathname doc \<noteq> ''/''"
    by (auto simp: replace_at_end_def endsWith_slash)
  have lead: "getMarkdownPath doc = q" if q: "pathname doc = CHR ''/'' # q" for q
  proof -
    from p q obtain stem' where "q = stem' @ ''.md''"
      by (cases stem) auto
    then have "endsWith q ''.md''" by (auto simp: endsWith_iff)
    with assms(1) nonroot q show ?thesis
      by (simp add: getMarkdownPath_def replace_at_start_def)
  qed
  have nolead: "getMarkdownPath doc = pathname doc" if "\<forall>q. pathname doc \<noteq> CHR ''/'' # q"
  proof -
    from that nonroot(2) have "take (Suc 0) (pathname doc) \<noteq> ''/''"
      by (cases "pathname doc") auto
    with assms nonroot show ?thesis
      by (simp add: getMarkdownPath_def replace_at_start_def)
  qed
  from lead nolead show ?thesis by blast
qed

theorem md_pathname_loses_only_leading_slash_witness:
  "getMarkdownPath \<lparr>editLink = None, pathname = ''/api/modules/RLM.md''\<rparr> = ''api/modules/RLM.md''
   \<and> getMarkdownPath \<lparr>editLink = None, pathname = ''faqs.md''\<rparr> = ''faqs.md''"
  using md_pathname_loses_only_leading_slash [of "\<lparr>editLink = None, pathname = ''/api/modules/RLM.md''\<rparr>"]
    md_pathname_loses_only_leading_slash [of "\<lparr>editLink = None, pathname = ''faqs.md''\<rparr>"]
  by (simp add: endsWith_def)

theorem md_pathname_not_unchanged: "endsWith ''/guide/intro.md'' ''.md''
  \<and> getMarkdownPath \<lparr>editLink = None, pathname = ''/guide/intro.md''\<rparr> = ''guide/intro.md''
  \<and> getMarkdownPath \<lparr>editLink = None, pathname = ''/guide/intro.md''\<rparr> \<noteq> ''/guide/intro.md''"
  by (simp add: getMarkdownPath_def replace_at_end_def replace_at_start_def endsWith_def)

text \<open>
  Claim C6. With no edit link, a pathname that is not empty, has no trailing slash and
  does not end in \<^verbatim>\<open>.md\<close> resolves to the pathname without its leading slash,
  followed by \<^verbatim>\<open>.md\<close>. (The empty pathname is the root, the case of the next
  theorem.)
\<close>

theorem plain_pathname_gets_md_extension:
  assumes "editLink doc = None" and "pathname doc \<noteq> []"
    and "\<not> endsWith (pathname doc) ''/''" and "\<not> endsWith (pathname doc) ''.md''"
  shows "(\<forall>q. pathname doc = CHR ''/'' # q \<longrightarrow> getMarkdownPath doc = q @ ''.md'')
    \<and> ((\<forall>q. pathname doc \<noteq> CHR ''/'' # q) \<longrightarrow> getMarkdownPath doc = pathname doc @ ''.md'')"
proof -
  from assms(3) have keep: "replace_at_end (pathname doc) ''/'' [] = pathname doc"
    by (rule replace_at_end_other)
  from assms(3) have notroot: "pathname doc \<noteq> ''/''"
    by (auto simp: endsWith_def)
  have lead: "getMarkdownPath doc = q @ ''.md''" if q: "pathname doc = CHR ''/'' # q" for q
  proof -
    from q notroot have "q \<noteq> []" by simp
    with q assms(4) have "\<not> endsWith q ''.md''"
      by (auto simp: endsWith_iff)
    with assms(1,2) keep notroot q show ?thesis
      by (simp add: getMarkdownPath_def replace_at_start_def)
  qed
  have nolead: "getMarkdownPath doc = pathname doc @ ''.md''"
    if "\<forall>q. pathname doc \<noteq> CHR ''/'' # q"
  proof -
    from that assms(2) have "take (Suc 0) (pathname doc) \<noteq> ''/''"
      by (cases "pathname doc") auto
    with assms keep notroot show ?thesis
      by (simp add: getMarkdownPath_def replace_at_start_def)
  qed
  from lead nolead show ?thesis by blast
qed

theorem plain_pathname_gets_md_extension_witness:
  "getMarkdownPath \<lparr>editLink = None, pathname = ''/guide/intro''\<rparr> = ''guide/intro.md''"
  using plain_pathname_gets_md_extension [of "\<lparr>editLink = None, pathname = ''/guide/intro''\<rparr>"]
  by (simp add: endsWith_def)

text \<open>
  Claim C7. With no edit link, the root pathname, written \<^verbatim>\<open>/\<close> or empty, resolves to
  \<^verbatim>\<open>index.md\<close>. \<^const>\<open>getMarkdownPath\<close> is a total function into strings: the source
  has no statement that throws, so the model has no error result.
\<close>

theorem root_pathname_resolves_to_index: "getMarkdownPath \<lparr>editLink = None, pathname = ''/''\<rparr> = ''index.md''
  \<and> getMarkdownPath \<lparr>editLink = None, pathname = []\<rparr> = ''index.md''"
  by (simp add: getMarkdownPath_def replace_at_end_def endsWith_def)

section \<open>\<^verbatim>\<open>copyMarkdown\<close>\<close>

lemma altPath_keeps_notebook: "endsWith (altPath p) ''.ipynb'' \<longleftrightarrow> endsWith p ''.ipynb''"
proof (cases "endsWith p ''.ipynb''")
  case True
  then obtain stem where "p = stem @ ''.ipynb''"
    by (auto simp: endsWith_iff)
  then have "altPath p = (stem @ ''/index'') @ ''.ipynb''"
    by (simp add: altPath_ipynb)
  then have "endsWith (altPath p) ''.ipynb''"
    unfolding endsWith_iff by blast
  with True show ?thesis by simp
next
  case False
  show ?thesis
  proof (cases "endsWith p ''.md''")
    case True
    then obtain stem where "p = stem @ ''.md''"
      by (auto simp: endsWith_iff)
    then have "altPath p = stem @ ''/index.md''"
      by (simp add: altPath_md)
    then have "\<not> endsWith (altPath p) ''.ipynb''"
      by (simp add: endsWith_def)
    with False show ?thesis by simp
  next
    case nomd: False
    with False show ?thesis by (simp add: altPath_other)
  qed
qed

text \<open>
  Claim C2. When the first request is answered with a status that is not a success,
  exactly two URLs are requested: the base followed by the path, then the base followed
  by the alternate path, which is the path with a trailing \<^verbatim>\<open>.md\<close> replaced by
  \<^verbatim>\<open>/index.md\<close>, or a trailing \<^verbatim>\<open>.ipynb\<close> by \<^verbatim>\<open>/index.ipynb\<close>. When the second
  request succeeds, the path that goes on with the text is the alternate path: when it
  ends in \<^verbatim>\<open>.ipynb\<close> the text goes through \<^verbatim>\<open>notebookToMarkdown\<close>, whose result is
  what is written to the clipboard and whose error is what is caught; otherwise the text
  is written as it is.
\<close>

theorem primary_failure_retries_directory_index_once:
  assumes "getMarkdownPath doc = p"
    and "fetch b 0 (REPO_RAW_BASE @ p) = Some res" and "\<not> ok res"
  shows "requests (copyMarkdown b doc) = [REPO_RAW_BASE @ p, REPO_RAW_BASE @ altPath p]
    \<and> (\<forall>stem. p = stem @ ''.md'' \<longrightarrow> altPath p = stem @ ''/index.md'')
    \<and> (\<forall>stem. p = stem @ ''.ipynb'' \<longrightarrow> altPath p = stem @ ''/index.ipynb'')
    \<and> (\<forall>res2 raw. fetch b 1 (REPO_RAW_BASE @ altPath p) = Some res2 \<and> ok res2
          \<and> body_text res2 = Some raw \<longrightarrow>
          snd (fetch_source b p) = Inr (raw, altPath p)
          \<and> notebook_calls (copyMarkdown b doc)
              = (if endsWith (altPath p) ''.ipynb'' then [raw] else [])
          \<and> (clipboard_calls (copyMarkdown b doc), caught (copyMarkdown b doc))
              = (case (if endsWith (altPath p) ''.ipynb''
                       then notebookToMarkdown (runtime b) raw else Inr raw) of
                   Inl e \<Rightarrow> ([], Some e)
                 | Inr md \<Rightarrow>
                     (case clipboard b of
                        None \<Rightarrow> ([], Some TypeError)
                      | Some writeText \<Rightarrow>
                          ([md], if writeText md then None else Some ClipboardDenied))))"
proof -
  have "requests (copyMarkdown b doc) = [REPO_RAW_BASE @ p, REPO_RAW_BASE @ altPath p]"
    using assms by (simp add: requests_copyMarkdown fetch_source_retry)
  moreover have "snd (fetch_source b p) = Inr (raw, altPath p)
      \<and> notebook_calls (copyMarkdown b doc)
          = (if endsWith (altPath p) ''.ipynb'' then [raw] else [])
      \<and> (clipboard_calls (copyMarkdown b doc), caught (copyMarkdown b doc))
          = (case (if endsWith (altPath p) ''.ipynb''
                   then notebookToMarkdown (runtime b) raw else Inr raw) of
               Inl e \<Rightarrow> ([], Some e)
             | Inr md \<Rightarrow>
                 (case clipboard b of
                    None \<Rightarrow> ([], Some TypeError)
                  | Some writeText \<Rightarrow>
                      ([md], if writeText md then None else Some ClipboardDenied)))"
    if "fetch b 1 (REPO_RAW_BASE @ altPath p) = Some res2" "ok res2" "body_text res2 = Some raw"
    for res2 raw
  proof -
    from assms that have src: "fetch_source b p
        = ([REPO_RAW_BASE @ p, REPO_RAW_BASE @ altPath p], Inr (raw, altPath p))"
      by (simp add: fetch_source_def Let_def)
    with assms(1) show ?thesis
      by (simp add: copyMarkdown_def Let_def normalize_def split: sum.splits option.splits)
  qed
  ultimately show ?thesis
    by (simp add: altPath_md altPath_ipynb)
qed

theorem primary_failure_retries_directory_index_once_witness:
  "(let r = copyMarkdown
      \<lparr>runtime = \<lparr>JSON_parse = (\<lambda>s. Some (JObj [(''cells'', JArr
           [JObj [(''cell_type'', JStr ''markdown''), (''source'', JArr [JStr ''# Title''])],
            JObj [(''cell_type'', JStr ''code''), (''source'', JArr [JStr ''print(1)''])]])])),
         num_truthy = (\<lambda>n::nat. n \<noteq> 0), num_toString = show_nat, index_lt = (\<lambda>i v. False)\<rparr>,
       fetch = (\<lambda>n url. if n = 0 then Some \<lparr>ok = False, body_text = Some ''404: Not Found''\<rparr>
                else Some \<lparr>ok = True, body_text = Some ''(notebook)''\<rparr>),
       clipboard = Some (\<lambda>s. True)\<rparr>
      \<lparr>editLink = Some (Some ''https://github.com/stanfordnlp/dspy/blob/main/docs/docs/tutorials/custom_module.ipynb''),
       pathname = ''/tutorials/custom_module/''\<rparr>
    in requests r =
        [''https://raw.githubusercontent.com/stanfordnlp/dspy/main/docs/docs/tutorials/custom_module.ipynb'',
         ''https://raw.githubusercontent.com/stanfordnlp/dspy/main/docs/docs/tutorials/custom_module/index.ipynb'']
      \<and> notebook_calls r = [''(notebook)'']
      \<and> clipboard_calls r = [''# Title\<newline>\<newline>```python\<newline>print(1)\<newline>```'']
      \<and> caught r = None)"
  using primary_failure_retries_directory_index_once
     [of "\<lparr>editLink = Some (Some ''https://github.com/stanfordnlp/dspy/blob/main/docs/docs/tutorials/custom_module.ipynb''),
       pathname = ''/tutorials/custom_module/''\<rparr>"
      "''tutorials/custom_module.ipynb''"
      "\<lparr>runtime = \<lparr>JSON_parse = (\<lambda>s. Some (JObj [(''cells'', JArr
           [JObj [(''cell_type'', JStr ''markdown''), (''source'', JArr [JStr ''# Title''])],
            JObj [(''cell_type'', JStr ''code''), (''source'', JArr [JStr ''print(1)''])]])])),
         num_truthy = (\<lambda>n::nat. n \<noteq> 0), num_toString = show_nat, index_lt = (\<lambda>i v. False)\<rparr>,
       fetch = (\<lambda>n url. if n = 0 then Some \<lparr>ok = False, body_text = Some ''404: Not Found''\<rparr>
                else Some \<lparr>ok = True, body_text = Some ''(notebook)''\<rparr>),
       clipboard = Some (\<lambda>s. True)\<rparr>"
      "\<lparr>ok = False, body_text = Some ''404: Not Found''\<rparr>"]
  by (simp add: getMarkdownPath_def substring_def endsWith_def altPath_def replace_at_end_def
      REPO_RAW_BASE_def Let_def notebookToMarkdown_def notebook_parts_def or_empty_array_def
      cell_parts_def)



text \<open>
  Claim C10. When the path ends neither in \<^verbatim>\<open>.md\<close> nor in \<^verbatim>\<open>.ipynb\<close> (an edit link
  to an \<^verbatim>\<open>.mdx\<close> page gives such a path), the alternate path is the path itself, and
  after a failed first request the second request is for the same URL.
\<close>

theorem retry_repeats_url_without_known_extension:
  assumes "getMarkdownPath doc = p" and "\<not> endsWith p ''.md''" and "\<not> endsWith p ''.ipynb''"
    and "fetch b 0 (REPO_RAW_BASE @ p) = Some res" and "\<not> ok res"
  shows "altPath p = p
    \<and> requests (copyMarkdown b doc) = [REPO_RAW_BASE @ p, REPO_RAW_BASE @ p]"
  using assms by (simp add: requests_copyMarkdown fetch_source_retry altPath_other)

theorem retry_repeats_url_without_known_extension_witness:
  "altPath ''deep-dive/language_model_clients/remote_models/Together.mdx''
     = ''deep-dive/language_model_clients/remote_models/Together.mdx''
   \<and> requests (copyMarkdown
      \<lparr>runtime = \<lparr>JSON_parse = (\<lambda>s. None), num_truthy = (\<lambda>n::nat. n \<noteq> 0),
         num_toString = show_nat, index_lt = (\<lambda>i v. False)\<rparr>,
       fetch = (\<lambda>n url. Some \<lparr>ok = False, body_text = Some ''404: Not Found''\<rparr>),
       clipboard = Some (\<lambda>s. True)\<rparr>
      \<lparr>editLink = Some (Some ''https://github.com/stanfordnlp/dspy/blob/main/docs/docs/deep-dive/language_model_clients/remote_models/Together.mdx''),
       pathname = ''/deep-dive/language_model_clients/remote_models/Together/''\<rparr>)
    = [''https://raw.githubusercontent.com/stanfordnlp/dspy/main/docs/docs/deep-dive/language_model_clients/remote_models/Together.mdx'',
       ''https://raw.githubusercontent.com/stanfordnlp/dspy/main/docs/docs/deep-dive/language_model_clients/remote_models/Together.mdx'']"
  using retry_repeats_url_without_known_extension
     [of "\<lparr>editLink = Some (Some ''https://github.com/stanfordnlp/dspy/blob/main/docs/docs/deep-dive/language_model_clients/remote_models/Together.mdx''),
       pathname = ''/deep-dive/language_model_clients/remote_models/Together/''\<rparr>"
      "''deep-dive/language_model_clients/remote_models/Together.mdx''"
      "\<lparr>runtime = \<lparr>JSON_parse = (\<lambda>s. None), num_truthy = (\<lambda>n::nat. n \<noteq> 0),
         num_toString = show_nat, index_lt = (\<lambda>i v. False)\<rparr>,
       fetch = (\<lambda>n url. Some \<lparr>ok = False, body_text = Some ''404: Not Found''\<rparr>),
       clipboard = Some (\<lambda>s. True)\<rparr>"
      "\<lparr>ok = False, body_text = Some ''404: Not Found''\<rparr>"]
  by (simp add: getMarkdownPath_def substring_def endsWith_def REPO_RAW_BASE_def)

text \<open>
  Claim C8. When the path does not end in \<^verbatim>\<open>.ipynb\<close>, the conversion step returns the
  text as it is, so applying it to its own result changes nothing.
\<close>

theorem normalize_identity_on_non_notebook:
  assumes "\<not> endsWith p ''.ipynb''"
  shows "normalize h p x = Inr x
    \<and> (case normalize h p x of Inl e \<Rightarrow> False | Inr y \<Rightarrow> normalize h p y = normalize h p x)"
  using assms by (simp add: normalize_def)

theorem normalize_identity_on_non_notebook_witness:
  "normalize \<lparr>JSON_parse = (\<lambda>s. None), num_truthy = (\<lambda>n::nat. n \<noteq> 0),
       num_toString = show_nat, index_lt = (\<lambda>i v. False)\<rparr> ''faqs.md'' ''# FAQ'' = Inr ''# FAQ''"
  using normalize_identity_on_non_notebook [of "''faqs.md''" "\<lparr>JSON_parse = (\<lambda>s. None), num_truthy = (\<lambda>n::nat. n \<noteq> 0),
       num_toString = show_nat, index_lt = (\<lambda>i v. False)\<rparr>" "''# FAQ''"]
  by (simp add: endsWith_def)

section \<open>\<^verbatim>\<open>notebookToMarkdown\<close>\<close>

lemma array_join_string_lines:
  "string_lines xs = Some ls \<Longrightarrow> array_join h [] xs = Inr (concat ls)"
proof (induction xs arbitrary: ls rule: string_lines.induct)
  case 1
  then show ?case by simp
next
  case (2 s xs)
  then obtain ls' where ls': "string_lines xs = Some ls'" "ls = s # ls'"
    by auto
  from "2.IH" [OF ls'(1)] ls'(2) show ?case
    by (cases xs) auto
qed simp_all

lemma cell_parts_view:
  assumes "cell_view c = Some (k, t)"
  shows "cell_parts h (Some c) = Inr (spec_fragments [(k, t)])"
proof -
  from assms obtain kvs ls l where c: "c = JObj kvs"
    and src: "map_of kvs ''source'' = Some (JArr ls)"
    and l: "string_lines ls = Some l"
    and k: "k = kind_of (map_of kvs ''cell_type'')" and t: "t = concat l"
    by (cases c) (auto split: option.splits json.splits)
  from l have "array_join h [] ls = Inr t"
    unfolding t by (rule array_join_string_lines)
  with c src k show ?thesis
    by (simp add: cell_parts_def or_empty_array_def kind_of_def)
qed

lemma spec_fragments_Cons: "spec_fragments (v # vs) = spec_fragments [v] @ spec_fragments vs"
  by (cases v, cases "fst v") auto

lemma cells_loop_view:
  "list_all2 (\<lambda>c v. cell_view c = Some v) cells vs \<Longrightarrow>
     cells_loop h cells parts = Inr (parts @ spec_fragments vs)"
proof (induction cells vs arbitrary: parts rule: list_all2_induct)
  case Nil
  then show ?case by simp
next
  case (Cons c cells v vs)
  from Cons.hyps(1) have "cell_parts h (Some c) = Inr (spec_fragments [v])"
    by (cases v) (simp add: cell_parts_view)
  with Cons.IH show ?case
    by (simp add: spec_fragments_Cons [of v vs])
qed

lemma join_strings_blank_lines:
  "join_strings sep fs = (case fs of [] \<Rightarrow> [] | f # gs \<Rightarrow> f @ concat (map (\<lambda>g. sep @ g) gs))"
  by (induction sep fs rule: join_strings.induct) simp_all

lemma element_string_error: "element_string h x = Inl e \<Longrightarrow> e = TypeError"
  and array_join_error: "array_join h sep xs = Inl e \<Longrightarrow> e = TypeError"
  by (induction h x and h sep xs rule: element_string_array_join.induct)
     (auto split: sum.splits if_splits)

lemma call_join_error: "call_join h v = Inl e \<Longrightarrow> e = TypeError"
  by (cases v) (auto dest: array_join_error)

lemma get_prop_error: "get_prop v name = Inl e \<Longrightarrow> e = TypeError"
  by (cases "(v, name)" rule: get_prop.cases) auto

lemma cell_parts_error: "cell_parts h cell = Inl e \<Longrightarrow> e = TypeError"
  by (auto simp: cell_parts_def split: sum.splits if_splits
      dest: get_prop_error call_join_error)

lemma cells_loop_error: "cells_loop h cells parts = Inl e \<Longrightarrow> e = TypeError"
  by (induction cells arbitrary: parts) (auto split: sum.splits dest: cell_parts_error)

lemma arraylike_loop_error: "arraylike_loop h kvs i parts = Inl e \<Longrightarrow> e = TypeError"
proof (induction h kvs i parts rule: arraylike_loop.induct)
  case (1 h kvs i parts)
  from "1.prems" show ?case
    by (subst (asm) arraylike_loop.simps)
       (auto split: if_splits sum.splits dest: cell_parts_error "1.IH")
qed

lemma notebook_parts_error: "notebook_parts h nb = Inl e \<Longrightarrow> e = TypeError"
  by (auto simp: notebook_parts_def split: sum.splits json.splits
      dest: get_prop_error cells_loop_error arraylike_loop_error)

lemma cell_parts_view_optional:
  assumes "cell_view_optional c = Some (k, t)"
  shows "cell_parts h (Some c) = Inr (spec_fragments [(k, t)])"
proof -
  from assms obtain kvs where c: "c = JObj kvs"
    by (cases c) auto
  show ?thesis
  proof (cases "map_of kvs ''source''")
    case None
    with assms c have "k = kind_of (map_of kvs ''cell_type'')" "t = []"
      by auto
    with None c show ?thesis
      by (simp add: cell_parts_def or_empty_array_def kind_of_def)
  next
    case (Some src)
    with assms c have "cell_view c = Some (k, t)"
      by (cases src) auto
    then show ?thesis by (rule cell_parts_view)
  qed
qed

lemma cells_loop_view_optional:
  "list_all2 (\<lambda>c v. cell_view_optional c = Some v) cells vs \<Longrightarrow>
     cells_loop h cells parts = Inr (parts @ spec_fragments vs)"
proof (induction cells vs arbitrary: parts rule: list_all2_induct)
  case Nil
  then show ?case by simp
next
  case (Cons c cells v vs)
  from Cons.hyps(1) have "cell_parts h (Some c) = Inr (spec_fragments [v])"
    by (cases v) (simp add: cell_parts_view_optional)
  with Cons.IH show ?case
    by (simp add: spec_fragments_Cons [of v vs])
qed

text \<open>
  Claim C1. For a path that ends in \<^verbatim>\<open>.ipynb\<close> and a text that parses to an object
  whose \<^verbatim>\<open>cells\<close> is an array of cells (objects whose \<^verbatim>\<open>source\<close> is an array of
  strings), the conversion succeeds with the rendering of the specification: the cells in
  their order, markdown text as it is, code text in a \<^verbatim>\<open>python\<close> fence, other kinds
  skipped, one blank line between the fragments.
\<close>

theorem notebook_cells_rendered_in_order:
  assumes "endsWith p ''.ipynb''"
    and "JSON_parse h raw = Some (JObj nb)"
    and "map_of nb ''cells'' = Some (JArr cells)"
    and "list_all2 (\<lambda>c v. cell_view c = Some v) cells vs"
  shows "normalize h p raw = Inr (spec_render vs)"
proof -
  from assms(3,4) have "notebook_parts h (JObj nb) = Inr (spec_fragments vs)"
    by (simp add: notebook_parts_def or_empty_array_def cells_loop_view)
  with assms(1,2) show ?thesis
    by (simp add: normalize_def notebookToMarkdown_def spec_render_def join_strings_blank_lines)
qed

theorem notebook_cells_rendered_in_order_witness:
  "normalize
     \<lparr>JSON_parse = (\<lambda>s. Some (JObj [(''cells'', JArr
         [JObj [(''cell_type'', JStr ''markdown''), (''source'', JArr [JStr ''# Title''])],
          JObj [(''cell_type'', JStr ''code''), (''source'', JArr [JStr ''print(1)''])]])])),
       num_truthy = (\<lambda>n::nat. n \<noteq> 0), num_toString = show_nat, index_lt = (\<lambda>i v. False)\<rparr>
     ''tutorials/custom_module/index.ipynb'' ''(notebook)''
   = Inr ''# Title\<newline>\<newline>```python\<newline>print(1)\<newline>```''"
  using notebook_cells_rendered_in_order [of "''tutorials/custom_module/index.ipynb''"
      "\<lparr>JSON_parse = (\<lambda>s. Some (JObj [(''cells'', JArr
         [JObj [(''cell_type'', JStr ''markdown''), (''source'', JArr [JStr ''# Title''])],
          JObj [(''cell_type'', JStr ''code''), (''source'', JArr [JStr ''print(1)''])]])])),
       num_truthy = (\<lambda>n::nat. n \<noteq> 0), num_toString = show_nat, index_lt = (\<lambda>i v. False)\<rparr>"
      "''(notebook)''"
      "[(''cells'', JArr
         [JObj [(''cell_type'', JStr ''markdown''), (''source'', JArr [JStr ''# Title''])],
          JObj [(''cell_type'', JStr ''code''), (''source'', JArr [JStr ''print(1)''])]])]"
      "[JObj [(''cell_type'', JStr ''markdown''), (''source'', JArr [JStr ''# Title''])],
          JObj [(''cell_type'', JStr ''code''), (''source'', JArr [JStr ''print(1)''])]]"
      "[(Markdown, ''# Title''), (Code, ''print(1)'')]"]
  by (simp add: endsWith_def kind_of_def spec_render_def)

text \<open>
  Claim C9. A text that parses to an object without \<^verbatim>\<open>cells\<close> converts to the empty
  string. A text that parses to an object whose \<^verbatim>\<open>cells\<close> is an array of cell objects,
  each with a \<^verbatim>\<open>source\<close> array of strings or with no \<^verbatim>\<open>source\<close> at all, converts
  without an error to the rendering of the specification in which a cell without
  \<^verbatim>\<open>source\<close> has the empty text. The conversion ends with a \<^const>\<open>SyntaxError\<close>
  exactly when \<^verbatim>\<open>JSON.parse\<close> throws.
\<close>

theorem missing_notebook_fields_read_as_empty:
  "(JSON_parse h raw = Some (JObj nb) \<and> map_of nb ''cells'' = None \<longrightarrow>
      notebookToMarkdown h raw = Inr [])
   \<and> (JSON_parse h raw' = Some (JObj nb') \<and> map_of nb' ''cells'' = Some (JArr cells)
        \<and> list_all2 (\<lambda>c v. cell_view_optional c = Some v) cells vs \<longrightarrow>
      notebookToMarkdown h raw' = Inr (spec_render vs))
   \<and> (notebookToMarkdown h txt = Inl SyntaxError \<longleftrightarrow> JSON_parse h txt = None)"
proof (intro conjI impI)
  assume "JSON_parse h raw = Some (JObj nb) \<and> map_of nb ''cells'' = None"
  then show "notebookToMarkdown h raw = Inr []"
    by (simp add: notebookToMarkdown_def notebook_parts_def or_empty_array_def)
next
  assume nb: "JSON_parse h raw' = Some (JObj nb') \<and> map_of nb' ''cells'' = Some (JArr cells)
        \<and> list_all2 (\<lambda>c v. cell_view_optional c = Some v) cells vs"
  then have cells: "map_of nb' ''cells'' = Some (JArr cells)"
    and views: "list_all2 (\<lambda>c v. cell_view_optional c = Some v) cells vs"
    by simp_all
  from views have "cells_loop h cells [] = Inr ([] @ spec_fragments vs)"
    by (rule cells_loop_view_optional)
  with cells have "notebook_parts h (JObj nb') = Inr (spec_fragments vs)"
    by (simp add: notebook_parts_def or_empty_array_def)
  with nb show "notebookToMarkdown h raw' = Inr (spec_render vs)"
    by (simp add: notebookToMarkdown_def spec_render_def join_strings_blank_lines)
next
  show "notebookToMarkdown h txt = Inl SyntaxError \<longleftrightarrow> JSON_parse h txt = None"
    by (auto simp: notebookToMarkdown_def split: option.splits sum.splits
        dest: notebook_parts_error)
qed

theorem missing_notebook_fields_read_as_empty_witness:
  "notebookToMarkdown
     \<lparr>JSON_parse = (\<lambda>s. if s = ''{}'' then Some (JObj [])
          else if s = ''(notebook)'' then Some (JObj [(''cells'', JArr
            [JObj [(''cell_type'', JStr ''code'')],
             JObj [(''cell_type'', JStr ''markdown''), (''source'', JArr [JStr ''# Title''])],
             JObj [(''cell_type'', JStr ''markdown'')]])])
          else None),
      num_truthy = (\<lambda>n::nat. n \<noteq> 0), num_toString = show_nat, index_lt = (\<lambda>i v. False)\<rparr>
     ''{}'' = Inr []
   \<and> notebookToMarkdown
     \<lparr>JSON_parse = (\<lambda>s. if s = ''{}'' then Some (JObj [])
          else if s = ''(notebook)'' then Some (JObj [(''cells'', JArr
            [JObj [(''cell_type'', JStr ''code'')],
             JObj [(''cell_type'', JStr ''markdown''), (''source'', JArr [JStr ''# Title''])],
             JObj [(''cell_type'', JStr ''markdown'')]])])
          else None),
      num_truthy = (\<lambda>n::nat. n \<noteq> 0), num_toString = show_nat, index_lt = (\<lambda>i v. False)\<rparr>
     ''(notebook)'' = Inr ''```python\<newline>\<newline>```\<newline>\<newline># Title\<newline>\<newline>''
   \<and> notebookToMarkdown
     \<lparr>JSON_parse = (\<lambda>s. if s = ''{}'' then Some (JObj [])
          else if s = ''(notebook)'' then Some (JObj [(''cells'', JArr
            [JObj [(''cell_type'', JStr ''code'')],
             JObj [(''cell_type'', JStr ''markdown''), (''source'', JArr [JStr ''# Title''])],
             JObj [(''cell_type'', JStr ''markdown'')]])])
          else None),
      num_truthy = (\<lambda>n::nat. n \<noteq> 0), num_toString = show_nat, index_lt = (\<lambda>i v. False)\<rparr>
     ''{'' = Inl SyntaxError"
  using missing_notebook_fields_read_as_empty
     [of "\<lparr>JSON_parse = (\<lambda>s. if s = ''{}'' then Some (JObj [])
          else if s = ''(notebook)'' then Some (JObj [(''cells'', JArr
            [JObj [(''cell_type'', JStr ''code'')],
             JObj [(''cell_type'', JStr ''markdown''), (''source'', JArr [JStr ''# Title''])],
             JObj [(''cell_type'', JStr ''markdown'')]])])
          else None),
      num_truthy = (\<lambda>n::nat. n \<noteq> 0), num_toString = show_nat, index_lt = (\<lambda>i v. False)\<rparr>"
      "''{}''" "[]" "''(notebook)''"
      "[(''cells'', JArr
            [JObj [(''cell_type'', JStr ''code'')],
             JObj [(''cell_type'', JStr ''markdown''), (''source'', JArr [JStr ''# Title''])],
             JObj [(''cell_type'', JStr ''markdown'')]])]"
      "[JObj [(''cell_type'', JStr ''code'')],
             JObj [(''cell_type'', JStr ''markdown''), (''source'', JArr [JStr ''# Title''])],
             JObj [(''cell_type'', JStr ''markdown'')]]"
      "[(Code, []), (Markdown, ''# Title''), (Markdown, [])]"
      "''{''"]
  by (simp add: kind_of_def spec_render_def)

end
